theory Spec2Isabelle
  imports Complex_Main "HOL-Library.Char_ord" "HOL-Library.List_Lexorder"
begin

section \<open>Python values used by app.py\<close>

text \<open>
  A Python \<open>str\<close> is modelled as an Isabelle \<open>string\<close>; a \<open>char\<close> stands for a code
  point below 256. Strings are ordered as Python orders them: lexicographically by code
  point (\<open>Char_ord\<close>, \<open>List_Lexorder\<close>). Numbers held in a pandas column (int64 or
  float64) are modelled as exact rationals: the rounding of float64, its infinities
  and the 64-bit range of int64 are outside the model. \<open>NaN\<close> is the missing value.
\<close>

datatype py_error = IndexError | KeyError | ValueError

datatype cell = NaN | Num rat | Str string

text \<open>\<open>str.isspace\<close> on one code point below 256: TAB..CR, FS..US, space, NEL, NBSP.\<close>

definition isspace :: "char \<Rightarrow> bool" where
  "isspace c = (let n = (of_char c :: nat) in
     (9 \<le> n \<and> n \<le> 13) \<or> (28 \<le> n \<and> n \<le> 32) \<or> n = 133 \<or> n = 160)"

text \<open>\<open>s.strip()\<close>: leading and trailing whitespace removed.\<close>

definition strip :: "string \<Rightarrow> string" where
  "strip s = rev (dropWhile isspace (rev (dropWhile isspace s)))"

text \<open>\<open>xs[i]\<close> on a Python list: a negative index counts from the end, an index out of
  range raises \<open>IndexError\<close>.\<close>

definition py_index :: "'a list \<Rightarrow> int \<Rightarrow> py_error + 'a" where
  "py_index xs i =
     (if 0 \<le> i
      then (if nat i < length xs then Inr (xs ! nat i) else Inl IndexError)
      else (if nat (- i) \<le> length xs then Inr (xs ! (length xs - nat (- i)))
            else Inl IndexError))"

section \<open>Column resolver: \<open>get_column_index\<close>\<close>

text \<open>
  \<^verbatim>\<open>occurrences = [i for i, cell in enumerate(header_row) if cell.strip() == label]\<close>
\<close>

definition occurrences :: "string \<Rightarrow> string list \<Rightarrow> nat list" where
  "occurrences label header_row =
     map fst (filter (\<lambda>(i, cell). strip cell = label) (enumerate 0 header_row))"

text \<open>
  \<^verbatim>\<open>return occurrences[index] + 1 if index < len(occurrences) else None\<close>
  The result is \<open>Inr (Some c)\<close> for a column \<open>c\<close>, \<open>Inr None\<close> for Python's \<open>None\<close>, and
  \<open>Inl IndexError\<close> when the subscript raises.
\<close>

definition get_column_index :: "string \<Rightarrow> int \<Rightarrow> string list \<Rightarrow> py_error + nat option" where
  "get_column_index label index header_row =
     (let occ = occurrences label header_row
      in if index < int (length occ)
         then (case py_index occ index of
                 Inl e \<Rightarrow> Inl e
               | Inr p \<Rightarrow> Inr (Some (p + 1)))
         else Inr None)"

section \<open>Aggregator, CTC mode: \<open>load_and_process_csv\<close>\<close>

text \<open>
  The frame that \<open>pd.read_csv\<close> yields for a CTC report, one record per line of the
  file: the campaign label is text, the four metrics are numbers, and \<open>None\<close> is a
  missing value (pandas' NaN).
\<close>

record ctc_raw =
  Campaign :: "string option"
  Calls :: "rat option"
  Connects :: "rat option"
  Calls_to_Connect :: "rat option"
  Abandoned :: "rat option"

text \<open>One row of an aggregated frame; every summary has the key column \<open>Camp\<close>.\<close>

record summary_row =
  Camp :: string

record ctc_row = summary_row +
  Calls_sum :: rat
  Connects_sum :: rat
  CTC_mean :: "rat option"
  Abandoned_sum :: rat

text \<open>\<open>groupby\<close> sorts the distinct group keys (\<open>sort=True\<close>) and skips missing keys.\<close>

definition group_keys :: "string list \<Rightarrow> string list" where
  "group_keys ks = sort (remdups ks)"

text \<open>The reductions \<open>'sum'\<close> and \<open>'mean'\<close> skip missing values; the sum of no value is
  0 and the mean of no value is NaN.\<close>

definition agg_sum :: "rat option list \<Rightarrow> rat" where
  "agg_sum xs = sum_list (List.map_filter (\<lambda>x. x) xs)"

definition agg_mean :: "rat option list \<Rightarrow> rat option" where
  "agg_mean xs =
     (let ys = List.map_filter (\<lambda>x. x) xs
      in if ys = [] then None else Some (sum_list ys / of_nat (length ys)))"

text \<open>
  \<^verbatim>\<open>data = data.dropna(subset=['Campaign'])\<close>,
  the renaming of \<open>Campaign\<close> to \<open>Camp\<close> and of \<open>Calls to Connect\<close> to \<open>CTC\<close>, and
  \<^verbatim>\<open>data.groupby('Camp').agg({'Calls': 'sum', 'Connects': 'sum', 'CTC': 'mean', 'Abandoned': 'sum'}).reset_index()\<close>
\<close>

definition load_and_process_csv :: "ctc_raw list \<Rightarrow> ctc_row list" where
  "load_and_process_csv file =
     (let data = filter (\<lambda>r. Campaign r \<noteq> None) file
      in map (\<lambda>k. let g = filter (\<lambda>r. Campaign r = Some k) data
                  in \<lparr>Camp = k,
                      Calls_sum = agg_sum (map Calls g),
                      Connects_sum = agg_sum (map Connects g),
                      CTC_mean = agg_mean (map Calls_to_Connect g),
                      Abandoned_sum = agg_sum (map Abandoned g)\<rparr>)
             (group_keys (List.map_filter Campaign data)))"

section \<open>Aggregator, Log mode: \<open>process_campaign_data_by_name\<close>\<close>

text \<open>
  \<^verbatim>\<open>def seconds_to_hms(seconds):
    hours = seconds // 3600
    minutes = (seconds % 3600) // 60
    seconds = seconds % 60
    return f"{hours:02}:{minutes:02}:{seconds:02}"\<close>
  Python's \<open>//\<close> and \<open>%\<close> on integers are \<open>div\<close> and \<open>mod\<close> on \<open>int\<close> (both floor).
\<close>

definition digit_char :: "nat \<Rightarrow> char" where
  "digit_char d = ''0123456789'' ! d"

fun decimal :: "nat \<Rightarrow> string" where
  "decimal n = (if n < 10 then [digit_char n] else decimal (n div 10) @ [digit_char (n mod 10)])"

declare decimal.simps [simp del]

text \<open>The format specification \<open>02\<close>: sign-aware zero padding to a width of at least 2.\<close>

definition format_02 :: "int \<Rightarrow> string" where
  "format_02 n =
     (if n < 0 then CHR ''-'' # decimal (nat (- n))
      else let ds = decimal (nat n) in replicate (2 - length ds) CHR ''0'' @ ds)"

definition seconds_to_hms :: "int \<Rightarrow> string" where
  "seconds_to_hms seconds =
     (let hours = seconds div 3600;
          minutes = (seconds mod 3600) div 60;
          seconds = seconds mod 60
      in format_02 hours @ '':'' @ format_02 minutes @ '':'' @ format_02 seconds)"

text \<open>
  The frame that \<open>pd.read_csv\<close> yields for a Log report. The recording length is a cell:
  a number when the column was read as int64 or float64, text when the column was read
  as objects (some cell of it is not a number), \<open>NaN\<close> when missing.
\<close>

record log_raw =
  Current_campaign :: "string option"
  Recording_Length :: cell

record log_row = summary_row +
  Recording_Length_Seconds :: int
  Logged_Calls :: nat
  Dial_Time :: string

text \<open>\<open>int(s)\<close> on a string: surrounding whitespace, an optional sign, decimal digits
  with single underscores between them; anything else raises \<open>ValueError\<close>.\<close>

definition isdigit :: "char \<Rightarrow> bool" where
  "isdigit c = (48 \<le> (of_char c :: nat) \<and> (of_char c :: nat) \<le> 57)"

definition digit_value :: "char \<Rightarrow> nat" where
  "digit_value c = of_char c - 48"

fun parse_digits :: "nat \<Rightarrow> string \<Rightarrow> nat option" where
  "parse_digits acc [] = Some acc"
| "parse_digits acc (c # cs) =
     (if isdigit c then parse_digits (10 * acc + digit_value c) cs
      else if c = CHR ''_'' then
        (case cs of
           [] \<Rightarrow> None
         | d # ds \<Rightarrow> if isdigit d then parse_digits (10 * acc + digit_value d) ds else None)
      else None)"

definition py_nat :: "string \<Rightarrow> nat option" where
  "py_nat s = (case s of
       [] \<Rightarrow> None
     | c # cs \<Rightarrow> if isdigit c then parse_digits (digit_value c) cs else None)"

definition py_int :: "string \<Rightarrow> int option" where
  "py_int s =
     (let t = strip s
      in case t of
           [] \<Rightarrow> None
         | c # cs \<Rightarrow>
             if c = CHR ''-'' then map_option (\<lambda>n. - int n) (py_nat cs)
             else if c = CHR ''+'' then map_option int (py_nat cs)
             else map_option int (py_nat t))"

text \<open>Conversion of a number to an integer truncates toward zero.\<close>

definition trunc :: "rat \<Rightarrow> int" where
  "trunc q = (if 0 \<le> q then \<lfloor>q\<rfloor> else \<lceil>q\<rceil>)"

text \<open>\<open>.astype(int)\<close> on one cell: a number is truncated, text goes through \<open>int(s)\<close>,
  a missing value cannot be converted.\<close>

definition astype_int :: "cell \<Rightarrow> py_error + int" where
  "astype_int c = (case c of
       NaN \<Rightarrow> Inl ValueError
     | Num q \<Rightarrow> Inr (trunc q)
     | Str s \<Rightarrow> (case py_int s of None \<Rightarrow> Inl ValueError | Some n \<Rightarrow> Inr n))"


fun astype_int_column :: "(string \<times> cell) list \<Rightarrow> py_error + (string \<times> int) list" where
  "astype_int_column [] = Inr []"
| "astype_int_column ((k, c) # rest) =
     (case astype_int c of
        Inl e \<Rightarrow> Inl e
      | Inr n \<Rightarrow> (case astype_int_column rest of
                    Inl e \<Rightarrow> Inl e
                  | Inr ns \<Rightarrow> Inr ((k, n) # ns)))"

text \<open>
  \<^verbatim>\<open>df = df.dropna(subset=['Current campaign', 'Recording Length (Seconds)'])\<close>
\<close>

definition dropna_log :: "log_raw list \<Rightarrow> (string \<times> cell) list" where
  "dropna_log file =
     List.map_filter
       (\<lambda>r. case Current_campaign r of
               None \<Rightarrow> None
             | Some k \<Rightarrow> if Recording_Length r = NaN then None else Some (k, Recording_Length r))
       file"

text \<open>
  \<^verbatim>\<open>df.groupby('Current campaign').agg(Recording_Length_Seconds=(..., 'sum'), Logged_Calls=(..., 'count')).reset_index()\<close>
  followed by the \<open>Dial Time\<close> column and the renaming.
\<close>

definition campaign_summary :: "(string \<times> int) list \<Rightarrow> log_row list" where
  "campaign_summary df =
     map (\<lambda>k. let g = filter (\<lambda>r. fst r = k) df;
                  total = sum_list (map snd g)
              in \<lparr>Camp = k,
                  Recording_Length_Seconds = total,
                  Logged_Calls = length g,
                  Dial_Time = seconds_to_hms total\<rparr>)
         (group_keys (map fst df))"

definition process_campaign_data_by_name :: "log_raw list \<Rightarrow> py_error + log_row list" where
  "process_campaign_data_by_name file =
     (case astype_int_column (dropna_log file) of
        Inl e \<Rightarrow> Inl e
      | Inr df \<Rightarrow> Inr (campaign_summary df))"

section \<open>Alias resolver: \<open>find_alternate_campaign_name_with_new_structure\<close>\<close>

text \<open>
  The settings frame: its column labels and its rows of cells, a cell being a name or
  missing. A frame built from records has distinct column labels; a row shorter than
  the header is missing its last cells.
\<close>

record dataframe =
  df_columns :: "string list"
  df_rows :: "string option list list"

fun first_index :: "('a \<Rightarrow> bool) \<Rightarrow> 'a list \<Rightarrow> nat option" where
  "first_index P [] = None"
| "first_index P (x # xs) =
     (if P x then Some 0 else map_option Suc (first_index P xs))"

definition cell_at :: "string option list \<Rightarrow> nat \<Rightarrow> string option" where
  "cell_at r p = (if p < length r then r ! p else None)"

text \<open>\<open>settings_df[col].values\<close>; an unknown label raises \<open>KeyError\<close>.\<close>

definition column_values :: "dataframe \<Rightarrow> string \<Rightarrow> py_error + string option list" where
  "column_values df col =
     (case first_index (\<lambda>c. c = col) (df_columns df) of
        None \<Rightarrow> Inl KeyError
      | Some p \<Rightarrow> Inr (map (\<lambda>r. cell_at r p) (df_rows df)))"

text \<open>\<open>.dropna()\<close> and \<open>.unique()\<close> (first occurrences, in order) on a row.\<close>

definition dropna :: "string option list \<Rightarrow> string list" where
  "dropna r = List.map_filter (\<lambda>x. x) r"

definition unique :: "'a list \<Rightarrow> 'a list" where
  "unique xs = rev (remdups (rev xs))"

text \<open>\<open>settings_df.iloc[row_index]\<close>, padded to the width of the frame.\<close>

definition iloc :: "dataframe \<Rightarrow> nat \<Rightarrow> string option list" where
  "iloc df i = map (cell_at (df_rows df ! i)) [0..<length (df_columns df)]"

text \<open>
  \<^verbatim>\<open>for col in settings_df.columns[1:]:
    if campaign_name in settings_df[col].values:
        row_index = settings_df[settings_df[col] == campaign_name].index[0]
        alternate_names = settings_df.iloc[row_index].dropna().unique().tolist()
        alternate_names = [name for name in alternate_names if name != campaign_name]
        return alternate_names
return []\<close>
\<close>

fun scan_columns :: "dataframe \<Rightarrow> string \<Rightarrow> string list \<Rightarrow> py_error + string list" where
  "scan_columns df campaign_name [] = Inr []"
| "scan_columns df campaign_name (col # cols) =
     (case column_values df col of
        Inl e \<Rightarrow> Inl e
      | Inr vals \<Rightarrow>
          (case first_index (\<lambda>v. v = Some campaign_name) vals of
             Some row_index \<Rightarrow>
               Inr (filter (\<lambda>name. name \<noteq> campaign_name) (unique (dropna (iloc df row_index))))
           | None \<Rightarrow> scan_columns df campaign_name cols))"

text \<open>
  \<^verbatim>\<open>if campaign_name in settings_df['Camp'].values:
    row_index = settings_df[settings_df['Camp'] == campaign_name].index[0]
    alternate_names = settings_df.iloc[row_index, 1:].dropna().unique().tolist()
    return alternate_names\<close>
\<close>

definition find_alternate_campaign_name_with_new_structure ::
    "dataframe \<Rightarrow> string \<Rightarrow> py_error + string list" where
  "find_alternate_campaign_name_with_new_structure settings_df campaign_name =
     (case column_values settings_df ''Camp'' of
        Inl e \<Rightarrow> Inl e
      | Inr vals \<Rightarrow>
          (case first_index (\<lambda>v. v = Some campaign_name) vals of
             Some row_index \<Rightarrow> Inr (unique (dropna (drop 1 (iloc settings_df row_index))))
           | None \<Rightarrow> scan_columns settings_df campaign_name (drop 1 (df_columns settings_df))))"

section \<open>Row matcher and update orchestrator: \<open>main\<close>\<close>

text \<open>
  \<^verbatim>\<open>camp_row_index = None
for j, row_data in enumerate(data):
    if row_data[0].strip() == camp_name:
        camp_row_index = j + 1
        break\<close>
\<close>

fun find_row_from :: "nat \<Rightarrow> string list list \<Rightarrow> string \<Rightarrow> py_error + nat option" where
  "find_row_from j [] camp_name = Inr None"
| "find_row_from j (row_data # rest) camp_name =
     (case py_index row_data 0 of
        Inl e \<Rightarrow> Inl e
      | Inr c \<Rightarrow> if strip c = camp_name then Inr (Some (j + 1))
                else find_row_from (Suc j) rest camp_name)"

definition find_row :: "string list list \<Rightarrow> string \<Rightarrow> py_error + nat option" where
  "find_row data camp_name = find_row_from 0 data camp_name"

text \<open>The selected update type, the parsed upload, the messages shown to the user and
  the state of a run.\<close>

datatype update_type = CTC | Log_type

datatype uploaded = CTC_report "ctc_raw list" | Log_report "log_raw list"

datatype message =
    Preview
  | Error_invalid_day_index
  | Error_exception py_error
  | Info_alternate string string
  | Success string int
  | Warning_not_found string

record run_state =
  writes :: "(nat \<times> nat \<times> cell) list"
  messages :: "message list"

record run_result = run_state +
  uncaught :: "py_error option"

text \<open>
  \<^verbatim>\<open>for alt_name in alternate_names:
    for j, row_data in enumerate(data):
        if row_data[0].strip() == alt_name:
            camp_row_index = j + 1
            break
    if camp_row_index:
        st.info(...)
        break\<close>
  The alternates are tried in order; the first one found in the sheet is used.
\<close>

fun try_alternates ::
    "string list list \<Rightarrow> string \<Rightarrow> string list \<Rightarrow> py_error + (nat option \<times> message list)" where
  "try_alternates data camp_name [] = Inr (None, [])"
| "try_alternates data camp_name (alt_name # rest) =
     (case find_row data alt_name of
        Inl e \<Rightarrow> Inl e
      | Inr (Some r) \<Rightarrow> Inr (Some r, [Info_alternate alt_name camp_name])
      | Inr None \<Rightarrow> try_alternates data camp_name rest)"

definition locate_row ::
    "string list list \<Rightarrow> dataframe \<Rightarrow> string \<Rightarrow> py_error + (nat option \<times> message list)" where
  "locate_row data settings_df camp_name =
     (case find_row data camp_name of
        Inl e \<Rightarrow> Inl e
      | Inr (Some r) \<Rightarrow> Inr (Some r, [])
      | Inr None \<Rightarrow>
          (case find_alternate_campaign_name_with_new_structure settings_df camp_name of
             Inl e \<Rightarrow> Inl e
           | Inr alternate_names \<Rightarrow> try_alternates data camp_name alternate_names))"

text \<open>The metrics of a summary row, in the order in which \<open>main\<close> writes them.\<close>

definition ctc_metrics :: "ctc_row \<Rightarrow> (string \<times> cell) list" where
  "ctc_metrics r =
     [(''Calls'', Num (Calls_sum r)),
      (''Connects'', Num (Connects_sum r)),
      (''CTC'', case CTC_mean r of None \<Rightarrow> NaN | Some m \<Rightarrow> Num m),
      (''Abandoned'', Num (Abandoned_sum r))]"

definition log_metrics :: "log_row \<Rightarrow> (string \<times> cell) list" where
  "log_metrics r =
     [(''Logged Calls'', Num (of_nat (Logged_Calls r))),
      (''Dial Time'', Str (Dial_Time r))]"

definition update_columns :: "update_type \<Rightarrow> string list" where
  "update_columns t = (case t of
       CTC \<Rightarrow> [''Calls'', ''CTC'', ''Abandoned'', ''Connects'']
     | Log_type \<Rightarrow> [''Logged Calls'', ''Dial Time''])"

text \<open>The aggregation selected by the update type; a report without the columns of
  that type raises \<open>KeyError\<close>.\<close>

definition aggregate ::
    "update_type \<Rightarrow> uploaded \<Rightarrow> py_error + (string \<times> (string \<times> cell) list) list" where
  "aggregate t uploaded_file = (case (t, uploaded_file) of
       (CTC, CTC_report f) \<Rightarrow> Inr (map (\<lambda>r. (Camp r, ctc_metrics r)) (load_and_process_csv f))
     | (Log_type, Log_report f) \<Rightarrow>
         (case process_campaign_data_by_name f of
            Inl e \<Rightarrow> Inl e
          | Inr rows \<Rightarrow> Inr (map (\<lambda>r. (Camp r, log_metrics r)) rows))
     | _ \<Rightarrow> Inl KeyError)"

text \<open>
  \<^verbatim>\<open>target_columns = {col: get_column_index(col, day_index, header_row) for col in update_columns}\<close>
\<close>

fun target_columns ::
    "string list \<Rightarrow> int \<Rightarrow> string list \<Rightarrow> py_error + (string \<times> nat option) list" where
  "target_columns [] day_index header_row = Inr []"
| "target_columns (col # cols) day_index header_row =
     (case get_column_index col day_index header_row of
        Inl e \<Rightarrow> Inl e
      | Inr c \<Rightarrow> (case target_columns cols day_index header_row of
                   Inl e \<Rightarrow> Inl e
                 | Inr tc \<Rightarrow> Inr ((col, c) # tc)))"

text \<open>The calls of \<open>worksheet.update_cell\<close> for one summary row; each is recorded in
  \<open>writes\<close> as (row, column, value) and is taken to succeed. An exception leaves the
  writes already issued in place. In Log mode \<open>Dial Time\<close> is always among the target
  columns, so the test before its write is always true.\<close>

fun update_cells ::
    "nat \<Rightarrow> (string \<times> nat) list \<Rightarrow> (string \<times> cell) list \<Rightarrow> run_state
       \<Rightarrow> run_state \<times> py_error option" where
  "update_cells camp_row_index tc [] st = (st, None)"
| "update_cells camp_row_index tc ((label, v) # rest) st =
     (case map_of tc label of
        None \<Rightarrow> (st, Some KeyError)
      | Some c \<Rightarrow>
          update_cells camp_row_index tc rest
            (st\<lparr>writes := writes st @ [(camp_row_index, c, v)]\<rparr>))"

text \<open>The loop \<^verbatim>\<open>for _, row in connects_target_df.iterrows()\<close>.\<close>

fun update_rows ::
    "string list list \<Rightarrow> dataframe \<Rightarrow> int \<Rightarrow> (string \<times> nat) list
       \<Rightarrow> (string \<times> (string \<times> cell) list) list \<Rightarrow> run_state
       \<Rightarrow> run_state \<times> py_error option" where
  "update_rows data settings_df day_index tc [] st = (st, None)"
| "update_rows data settings_df day_index tc ((camp_name, metrics) # rest) st =
     (case locate_row data settings_df camp_name of
        Inl e \<Rightarrow> (st, Some e)
      | Inr (None, msgs) \<Rightarrow>
          update_rows data settings_df day_index tc rest
            (st\<lparr>messages := messages st @ msgs @ [Warning_not_found camp_name]\<rparr>)
      | Inr (Some camp_row_index, msgs) \<Rightarrow>
          (case update_cells camp_row_index tc metrics (st\<lparr>messages := messages st @ msgs\<rparr>) of
             (st', Some e) \<Rightarrow> (st', Some e)
           | (st', None) \<Rightarrow>
               update_rows data settings_df day_index tc rest
                 (st'\<lparr>messages := messages st' @ [Success camp_name (day_index + 1)]\<rparr>)))"

text \<open>The body of the \<open>try\<close> block, after the two worksheets have been read into
  \<open>data\<close> and \<open>settings_df\<close>.\<close>

definition try_block ::
    "update_type \<Rightarrow> (string \<times> (string \<times> cell) list) list \<Rightarrow> string list list \<Rightarrow> dataframe
       \<Rightarrow> int \<Rightarrow> run_state \<Rightarrow> run_state \<times> py_error option" where
  "try_block t connects_target_df data settings_df day_index st =
     (case py_index data 1 of
        Inl e \<Rightarrow> (st, Some e)
      | Inr header_row \<Rightarrow>
          (case target_columns (update_columns t) day_index header_row of
             Inl e \<Rightarrow> (st, Some e)
           | Inr tc \<Rightarrow>
               (case those (map snd tc) of
                  None \<Rightarrow> (st\<lparr>messages := messages st @ [Error_invalid_day_index]\<rparr>, None)
                | Some cs \<Rightarrow>
                    update_rows data settings_df day_index (zip (map fst tc) cs)
                      connects_target_df st)))"

text \<open>
  One run of \<open>main\<close> after "Execute" with a file uploaded. The aggregation runs outside
  the \<open>try\<close> block, so its exception is not caught; an exception inside the block is
  reported with \<open>st.error\<close>.
\<close>

definition main ::
    "update_type \<Rightarrow> uploaded \<Rightarrow> string list list \<Rightarrow> dataframe \<Rightarrow> int \<Rightarrow> run_result" where
  "main t uploaded_file data settings_df day_index =
     (case aggregate t uploaded_file of
        Inl e \<Rightarrow> \<lparr>writes = [], messages = [], uncaught = Some e\<rparr>
      | Inr connects_target_df \<Rightarrow>
          (case try_block t connects_target_df data settings_df day_index
                  \<lparr>writes = [], messages = [Preview]\<rparr> of
             (st, None) \<Rightarrow>
               \<lparr>writes = writes st, messages = messages st, uncaught = None\<rparr>
           | (st, Some e) \<Rightarrow>
               \<lparr>writes = writes st, messages = messages st @ [Error_exception e],
                uncaught = None\<rparr>))"

section \<open>Facts about the column resolver\<close>

lemma occurrences_filter_upt:
  "occurrences label h = filter (\<lambda>i. strip (h ! i) = label) [0..<length h]"
proof -
  have "filter (\<lambda>(i, cell). strip cell = label) (zip [0..<length h] h)
        = filter (\<lambda>p. strip (h ! fst p) = label) (zip [0..<length h] h)"
    by (rule filter_cong) (auto simp: in_set_zip)
  then have "occurrences label h
        = map fst (filter ((\<lambda>i. strip (h ! i) = label) \<circ> fst) (zip [0..<length h] h))"
    by (simp add: occurrences_def enumerate_eq_zip comp_def)
  also have "\<dots> = filter (\<lambda>i. strip (h ! i) = label) (map fst (zip [0..<length h] h))"
    by (simp only: filter_map)
  finally show ?thesis by simp
qed

lemma filter_upt_nth:
  "i < length (filter Q [0..<n]) \<Longrightarrow>
     filter Q [0..<n] ! i < n \<and> Q (filter Q [0..<n] ! i)
     \<and> length (filter Q [0..<filter Q [0..<n] ! i]) = i"
proof (induction n)
  case 0
  then show ?case by simp
next
  case (Suc n)
  show ?case
  proof (cases "i < length (filter Q [0..<n])")
    case True
    with Suc.IH have "filter Q [0..<n] ! i < n \<and> Q (filter Q [0..<n] ! i)
       \<and> length (filter Q [0..<filter Q [0..<n] ! i]) = i" by simp
    moreover from True have "filter Q [0..<Suc n] ! i = filter Q [0..<n] ! i"
      by (simp add: nth_append)
    ultimately show ?thesis by simp
  next
    case False
    with Suc.prems have q: "Q n" and i: "i = length (filter Q [0..<n])"
      by (auto split: if_splits)
    then have "filter Q [0..<Suc n] ! i = n" by simp
    with q i show ?thesis by simp
  qed
qed

lemma filter_upt_take:
  "p \<le> length h \<Longrightarrow>
     length (filter (\<lambda>i. P (h ! i)) [0..<p]) = length (filter P (take p h))"
proof -
  assume p: "p \<le> length h"
  have "take p h = take p (map ((!) h) [0..<length h])"
    by (simp only: map_nth)
  also from p have "\<dots> = map ((!) h) [0..<p]"
    by (simp only: take_map) simp
  finally have "take p h = map ((!) h) [0..<p]" .
  then have "filter P (take p h) = map ((!) h) (filter (P \<circ> (!) h) [0..<p])"
    by (simp add: filter_map)
  then show ?thesis by (simp add: comp_def)
qed

lemma length_occurrences:
  "length (occurrences label h) = length (filter (\<lambda>c. strip c = label) h)"
  using filter_upt_take [of "length h" h "\<lambda>c. strip c = label"]
  by (simp add: occurrences_filter_upt)

lemma occurrences_nth:
  assumes "i < length (occurrences label h)"
  shows "occurrences label h ! i < length h"
    and "strip (h ! (occurrences label h ! i)) = label"
    and "length (filter (\<lambda>c. strip c = label) (take (occurrences label h ! i) h)) = i"
proof -
  let ?Q = "\<lambda>i. strip (h ! i) = label"
  from assms have i: "i < length (filter ?Q [0..<length h])"
    by (simp add: occurrences_filter_upt)
  note f = filter_upt_nth [OF i]
  from f show lt: "occurrences label h ! i < length h"
    by (simp add: occurrences_filter_upt)
  from f show "strip (h ! (occurrences label h ! i)) = label"
    by (simp add: occurrences_filter_upt)
  from f lt show "length (filter (\<lambda>c. strip c = label) (take (occurrences label h ! i) h)) = i"
    using filter_upt_take [of "occurrences label h ! i" h "\<lambda>c. strip c = label"]
    by (simp add: occurrences_filter_upt)
qed

text \<open>
  Claim C2. Let \<open>k\<close> be the number of cells of the header row that equal the label after
  trimming. For every index \<open>i\<close> with \<open>0 \<le> i < k\<close> the column resolver returns \<open>p + 1\<close>,
  where \<open>p\<close> is the 0-based position of the \<open>i\<close>-th such cell: the cell at \<open>p\<close> matches
  and exactly \<open>i\<close> matching cells lie before it. For every \<open>i \<ge> k\<close> it returns
  not-found.
\<close>

theorem get_column_index_occurrence:
  "(0 \<le> i \<and> i < int (length (filter (\<lambda>c. strip c = label) header_row)) \<longrightarrow>
      (\<exists>p. get_column_index label i header_row = Inr (Some (p + 1))
           \<and> p < length header_row
           \<and> strip (header_row ! p) = label
           \<and> length (filter (\<lambda>c. strip c = label) (take p header_row)) = nat i))
   \<and> (int (length (filter (\<lambda>c. strip c = label) header_row)) \<le> i \<longrightarrow>
        get_column_index label i header_row = Inr None)"
proof (intro conjI impI)
  assume "0 \<le> i \<and> i < int (length (filter (\<lambda>c. strip c = label) header_row))"
  then have i: "0 \<le> i" "nat i < length (occurrences label header_row)"
    by (auto simp: length_occurrences)
  then have "get_column_index label i header_row
               = Inr (Some (occurrences label header_row ! nat i + 1))"
    by (simp add: get_column_index_def py_index_def Let_def)
  with occurrences_nth [OF i(2)]
  show "\<exists>p. get_column_index label i header_row = Inr (Some (p + 1))
           \<and> p < length header_row
           \<and> strip (header_row ! p) = label
           \<and> length (filter (\<lambda>c. strip c = label) (take p header_row)) = nat i"
    by blast
next
  assume "int (length (filter (\<lambda>c. strip c = label) header_row)) \<le> i"
  then show "get_column_index label i header_row = Inr None"
    by (simp add: get_column_index_def length_occurrences Let_def)
qed

theorem get_column_index_occurrence_witness:
  "(0::int) \<le> 1
   \<and> (1::int) < int (length (filter (\<lambda>c. strip c = ''Calls'')
                                [''Calls'', ''CTC'', '' Calls '', ''CTC'']))
   \<and> (\<exists>p. get_column_index ''Calls'' 1 [''Calls'', ''CTC'', '' Calls '', ''CTC'']
             = Inr (Some (p + 1))
          \<and> p < length [''Calls'', ''CTC'', '' Calls '', ''CTC'']
          \<and> strip ([''Calls'', ''CTC'', '' Calls '', ''CTC''] ! p) = ''Calls''
          \<and> length (filter (\<lambda>c. strip c = ''Calls'')
                       (take p [''Calls'', ''CTC'', '' Calls '', ''CTC''])) = nat 1)
   \<and> int (length (filter (\<lambda>c. strip c = ''Calls'')
                      [''Calls'', ''CTC'', '' Calls '', ''CTC''])) \<le> 2
   \<and> get_column_index ''Calls'' 2 [''Calls'', ''CTC'', '' Calls '', ''CTC''] = Inr None"
proof -
  let ?h = "[''Calls'', ''CTC'', '' Calls '', ''CTC'']"
  have k: "length (filter (\<lambda>c. strip c = ''Calls'') ?h) = 2"
    by code_simp
  from k get_column_index_occurrence [of 1 "''Calls''" ?h]
       get_column_index_occurrence [of 2 "''Calls''" ?h]
  show ?thesis by simp
qed

text \<open>
  Claim C10. For a negative index the column resolver never returns not-found. With
  \<open>k\<close> matching cells in the header row and \<open>- i \<le> k\<close> it returns \<open>p + 1\<close> for the
  matching cell at position \<open>p\<close> that is the \<open>(- i)\<close>-th counted from the end (exactly
  \<open>k + i\<close> matching cells lie before it, so \<open>-1\<close> selects the last one); with \<open>k < - i\<close>
  the subscript raises \<open>IndexError\<close>.
\<close>

theorem get_column_index_negative:
  "i < 0 \<Longrightarrow>
     get_column_index label i header_row \<noteq> Inr None
     \<and> (- i \<le> int (length (filter (\<lambda>c. strip c = label) header_row)) \<longrightarrow>
          (\<exists>p. get_column_index label i header_row = Inr (Some (p + 1))
               \<and> p < length header_row
               \<and> strip (header_row ! p) = label
               \<and> int (length (filter (\<lambda>c. strip c = label) (take p header_row)))
                   = int (length (filter (\<lambda>c. strip c = label) header_row)) + i))
     \<and> (int (length (filter (\<lambda>c. strip c = label) header_row)) < - i \<longrightarrow>
          get_column_index label i header_row = Inl IndexError)"
proof -
  assume neg: "i < 0"
  let ?occ = "occurrences label header_row"
  let ?k = "length (filter (\<lambda>c. strip c = label) header_row)"
  have len: "length ?occ = ?k" by (rule length_occurrences)
  have far: "get_column_index label i header_row = Inl IndexError" if "int ?k < - i"
    using that neg by (simp add: get_column_index_def py_index_def Let_def len)
  have near: "\<exists>p. get_column_index label i header_row = Inr (Some (p + 1))
               \<and> p < length header_row
               \<and> strip (header_row ! p) = label
               \<and> int (length (filter (\<lambda>c. strip c = label) (take p header_row))) = int ?k + i"
    if "- i \<le> int ?k"
  proof -
    from that neg have j: "nat (int ?k + i) < length ?occ"
      by (simp add: len)
    from that neg have le: "nat (- i) \<le> ?k" and eq: "?k - nat (- i) = nat (int ?k + i)"
      by linarith+
    from neg le have "get_column_index label i header_row
                          = Inr (Some (?occ ! (?k - nat (- i)) + 1))"
      by (simp add: get_column_index_def py_index_def Let_def len)
    then have "get_column_index label i header_row
                          = Inr (Some (?occ ! nat (int ?k + i) + 1))"
      by (simp only: eq)
    moreover from that have "int (nat (int ?k + i)) = int ?k + i" by simp
    ultimately show ?thesis
      using occurrences_nth [OF j] by metis
  qed
  from far near have "get_column_index label i header_row \<noteq> Inr None"
    by (cases "- i \<le> int ?k") auto
  with far near show ?thesis by blast
qed

theorem get_column_index_negative_witness:
  "(-1::int) < 0
   \<and> get_column_index ''CTC'' (-1) [''Calls'', ''CTC'', ''Calls'', ''CTC ''] = Inr (Some 4)
   \<and> (-3::int) < 0
   \<and> int (length (filter (\<lambda>c. strip c = ''CTC'') [''Calls'', ''CTC'', ''Calls'', ''CTC ''])) < - (-3)
   \<and> get_column_index ''CTC'' (-3) [''Calls'', ''CTC'', ''Calls'', ''CTC ''] = Inl IndexError"
proof -
  let ?h = "[''Calls'', ''CTC'', ''Calls'', ''CTC '']"
  have k: "length (filter (\<lambda>c. strip c = ''CTC'') ?h) = 2"
    by code_simp
  have a: "get_column_index ''CTC'' (-1) ?h = Inr (Some 4)"
    by code_simp
  from k a get_column_index_negative [of "-3" "''CTC''" ?h]
       get_column_index_negative [of "-1" "''CTC''" ?h]
  show ?thesis by simp
qed

section \<open>Facts about the Dial Time format\<close>

lemma digit_char_cases:
  "d < 10 \<Longrightarrow> isdigit (digit_char d) \<and> digit_value (digit_char d) = d
      \<and> (digit_char d = CHR ''0'' \<longleftrightarrow> d = 0)"
proof -
  assume "d < 10"
  then have "d = 0 \<or> d = 1 \<or> d = 2 \<or> d = 3 \<or> d = 4 \<or> d = 5 \<or> d = 6 \<or> d = 7 \<or> d = 8 \<or> d = 9"
    by arith
  then show ?thesis
    by (elim disjE) (simp_all add: digit_char_def isdigit_def digit_value_def)
qed

lemma parse_digits_all:
  "list_all isdigit cs \<Longrightarrow>
     parse_digits acc cs = Some (foldl (\<lambda>a c. 10 * a + digit_value c) acc cs)"
  by (induction cs arbitrary: acc) simp_all

lemma py_nat_all:
  "cs \<noteq> [] \<Longrightarrow> list_all isdigit cs \<Longrightarrow>
     py_nat cs = Some (foldl (\<lambda>a c. 10 * a + digit_value c) 0 cs)"
  by (cases cs) (simp_all add: py_nat_def parse_digits_all)

lemma decimal_props:
  "decimal n \<noteq> [] \<and> list_all isdigit (decimal n)
     \<and> foldl (\<lambda>a c. 10 * a + digit_value c) 0 (decimal n) = n"
proof (induction n rule: decimal.induct)
  case (1 n)
  show ?case
  proof (cases "n < 10")
    case True
    then show ?thesis
      using digit_char_cases [of n] by (simp add: decimal.simps [of n])
  next
    case False
    have m: "n mod 10 < 10" by simp
    from False 1 digit_char_cases [OF m] show ?thesis
      by (simp add: decimal.simps [of n])
  qed
qed

lemma decimal_hd: "0 < n \<Longrightarrow> hd (decimal n) \<noteq> CHR ''0''"
proof (induction n rule: decimal.induct)
  case (1 n)
  show ?case
  proof (cases "n < 10")
    case True
    with "1.prems" show ?thesis
      using digit_char_cases [of n] by (simp add: decimal.simps [of n])
  next
    case False
    then have "0 < n div 10" by simp
    with False 1 have "hd (decimal (n div 10)) \<noteq> CHR ''0''" by simp
    moreover have "decimal (n div 10) \<noteq> []" using decimal_props by simp
    ultimately show ?thesis using False
      by (simp add: decimal.simps [of n] hd_append)
  qed
qed

lemma decimal_length:
  "n < 100 \<Longrightarrow> length (decimal n) = (if n < 10 then 1 else 2)"
proof -
  assume "n < 100"
  then have "n div 10 < 10" by simp
  then show ?thesis
    by (simp add: decimal.simps [of n] decimal.simps [of "n div 10"])
qed

lemma decimal_length_ge: "10 \<le> n \<Longrightarrow> 2 \<le> length (decimal n)"
  using decimal_props [of "n div 10"]
  by (cases "decimal (n div 10)") (simp_all add: decimal.simps [of n])

lemma format_02_props:
  assumes "0 \<le> n"
  shows "2 \<le> length (format_02 n)"
    and "list_all isdigit (format_02 n)"
    and "py_nat (format_02 n) = Some (nat n)"
    and "n < 100 \<Longrightarrow> length (format_02 n) = 2"
    and "length (format_02 n) = 2 \<or> hd (format_02 n) \<noteq> CHR ''0''"
proof -
  let ?ds = "decimal (nat n)"
  let ?z = "replicate (2 - length ?ds) CHR ''0''"
  from assms have f: "format_02 n = ?z @ ?ds"
    by (simp add: format_02_def Let_def)
  have z: "isdigit CHR ''0''" "digit_value CHR ''0'' = 0"
    by (simp_all add: isdigit_def digit_value_def)
  note d = decimal_props [of "nat n"]
  show "2 \<le> length (format_02 n)" by (simp add: f)
  from d z show all: "list_all isdigit (format_02 n)"
    by (auto simp: f list_all_iff)
  have "foldl (\<lambda>a c. 10 * a + digit_value c) 0 (replicate k CHR ''0'') = 0" for k
    by (induction k) (simp_all add: z)
  then have "foldl (\<lambda>a c. 10 * a + digit_value c) 0 ?z = 0" .
  then have "foldl (\<lambda>a c. 10 * a + digit_value c) 0 (format_02 n) = nat n"
    using d by (simp add: f)
  moreover from d have "format_02 n \<noteq> []" by (simp add: f)
  ultimately show "py_nat (format_02 n) = Some (nat n)"
    using all by (simp add: py_nat_all)
  show "length (format_02 n) = 2" if "n < 100"
    using that assms decimal_length [of "nat n"] by (simp add: f)
  show "length (format_02 n) = 2 \<or> hd (format_02 n) \<noteq> CHR ''0''"
  proof (cases "n < 100")
    case True
    with assms decimal_length [of "nat n"] show ?thesis by (simp add: f)
  next
    case False
    then have "10 \<le> nat n" "0 < nat n" by simp_all
    with decimal_length_ge [of "nat n"] decimal_hd [of "nat n"]
    show ?thesis by (simp add: f)
  qed
qed

text \<open>
  Claim C8. For every non-negative number of seconds the Dial Time is
  \<open>HH:MM:SS\<close>: three runs of decimal digits separated by colons, minutes and seconds
  of exactly two digits, hours of at least two digits and of more only without a
  leading zero; read back as numbers they are \<open>s div 3600\<close> (not reduced modulo 24),
  \<open>(s mod 3600) div 60\<close> and \<open>s mod 60\<close>. 3661 seconds give \<open>01:01:01\<close> and 90000
  seconds give \<open>25:00:00\<close>.
\<close>

theorem seconds_to_hms_format:
  "(0 \<le> s \<longrightarrow>
      (\<exists>hh mm ss. seconds_to_hms s = hh @ '':'' @ mm @ '':'' @ ss
          \<and> list_all isdigit hh \<and> list_all isdigit mm \<and> list_all isdigit ss
          \<and> 2 \<le> length hh \<and> (length hh = 2 \<or> hd hh \<noteq> CHR ''0'')
          \<and> length mm = 2 \<and> length ss = 2
          \<and> py_nat hh = Some (nat (s div 3600))
          \<and> py_nat mm = Some (nat ((s mod 3600) div 60))
          \<and> py_nat ss = Some (nat (s mod 60))))
   \<and> seconds_to_hms 3661 = ''01:01:01''
   \<and> seconds_to_hms 90000 = ''25:00:00''"
proof (intro conjI impI)
  assume s: "0 \<le> s"
  let ?h = "s div 3600" and ?m = "(s mod 3600) div 60" and ?s = "s mod 60"
  from s have h: "0 \<le> ?h" by simp
  have m: "0 \<le> ?m" "?m < 100" by simp_all
  have sec: "0 \<le> ?s" "?s < 100" by simp_all
  have "seconds_to_hms s = format_02 ?h @ '':'' @ format_02 ?m @ '':'' @ format_02 ?s"
    by (simp add: seconds_to_hms_def Let_def)
  with format_02_props(1,2,3,5) [OF h] format_02_props(2,3,4) [OF m(1)] m(2)
       format_02_props(2,3,4) [OF sec(1)] sec(2)
  show "\<exists>hh mm ss. seconds_to_hms s = hh @ '':'' @ mm @ '':'' @ ss
          \<and> list_all isdigit hh \<and> list_all isdigit mm \<and> list_all isdigit ss
          \<and> 2 \<le> length hh \<and> (length hh = 2 \<or> hd hh \<noteq> CHR ''0'')
          \<and> length mm = 2 \<and> length ss = 2
          \<and> py_nat hh = Some (nat (s div 3600))
          \<and> py_nat mm = Some (nat ((s mod 3600) div 60))
          \<and> py_nat ss = Some (nat (s mod 60))"
    by blast
next
  show "seconds_to_hms 3661 = ''01:01:01''" by code_simp
next
  show "seconds_to_hms 90000 = ''25:00:00''" by code_simp
qed

theorem seconds_to_hms_format_witness:
  "(0::int) \<le> 360000
   \<and> (\<exists>hh mm ss. seconds_to_hms 360000 = hh @ '':'' @ mm @ '':'' @ ss
          \<and> list_all isdigit hh \<and> list_all isdigit mm \<and> list_all isdigit ss
          \<and> 2 \<le> length hh \<and> (length hh = 2 \<or> hd hh \<noteq> CHR ''0'')
          \<and> length mm = 2 \<and> length ss = 2
          \<and> py_nat hh = Some 100 \<and> py_nat mm = Some 0 \<and> py_nat ss = Some 0)"
  using seconds_to_hms_format [of 360000] by simp

section \<open>Facts about the aggregators\<close>





























section \<open>Facts about the row matcher\<close>

lemma py_index_0:
  "py_index xs 0 = (if xs = [] then Inl IndexError else Inr (hd xs))"
  by (cases xs) (simp_all add: py_index_def)

lemma find_row_from_Some:
  "find_row_from j data name = Inr (Some r) \<longleftrightarrow>
     (\<exists>i<length data. r = j + i + 1
        \<and> (\<forall>row\<in>set (take i data). row \<noteq> [] \<and> strip (hd row) \<noteq> name)
        \<and> data ! i \<noteq> [] \<and> strip (hd (data ! i)) = name)"
proof (induction data arbitrary: j)
  case Nil
  then show ?case by simp
next
  case (Cons row rest)
  show ?case
  proof (cases "row = []")
    case True
    have "\<not> (\<exists>i<length (row # rest). r = j + i + 1
        \<and> (\<forall>x\<in>set (take i (row # rest)). x \<noteq> [] \<and> strip (hd x) \<noteq> name)
        \<and> (row # rest) ! i \<noteq> [] \<and> strip (hd ((row # rest) ! i)) = name)"
    proof
      assume "\<exists>i<length (row # rest). r = j + i + 1
        \<and> (\<forall>x\<in>set (take i (row # rest)). x \<noteq> [] \<and> strip (hd x) \<noteq> name)
        \<and> (row # rest) ! i \<noteq> [] \<and> strip (hd ((row # rest) ! i)) = name"
      then obtain i where i:
          "\<forall>x\<in>set (take i (row # rest)). x \<noteq> [] \<and> strip (hd x) \<noteq> name"
          "(row # rest) ! i \<noteq> []"
        by blast
      with True show False by (cases i) auto
    qed
    with True show ?thesis by (simp add: py_index_0)
  next
    case ne: False
    show ?thesis
    proof (cases "strip (hd row) = name")
      case True
      have "(\<exists>i<length (row # rest). r = j + i + 1
        \<and> (\<forall>x\<in>set (take i (row # rest)). x \<noteq> [] \<and> strip (hd x) \<noteq> name)
        \<and> (row # rest) ! i \<noteq> [] \<and> strip (hd ((row # rest) ! i)) = name)
        \<longleftrightarrow> r = j + 1" (is "?L \<longleftrightarrow> _")
      proof
        assume ?L
        then obtain i where i: "r = j + i + 1"
          "\<forall>x\<in>set (take i (row # rest)). x \<noteq> [] \<and> strip (hd x) \<noteq> name"
          by blast
        from i(2) True have "i = 0" by (cases i) auto
        with i show "r = j + 1" by simp
      next
        assume "r = j + 1"
        with ne True have "0 < length (row # rest) \<and> r = j + 0 + 1
          \<and> (\<forall>x\<in>set (take 0 (row # rest)). x \<noteq> [] \<and> strip (hd x) \<noteq> name)
          \<and> (row # rest) ! 0 \<noteq> [] \<and> strip (hd ((row # rest) ! 0)) = name"
          by simp
        then show ?L by blast
      qed
      with ne True show ?thesis by (auto simp: py_index_0)
    next
      case False
      have "(\<exists>i<length (row # rest). r = j + i + 1
        \<and> (\<forall>x\<in>set (take i (row # rest)). x \<noteq> [] \<and> strip (hd x) \<noteq> name)
        \<and> (row # rest) ! i \<noteq> [] \<and> strip (hd ((row # rest) ! i)) = name)
        \<longleftrightarrow> (\<exists>i<length rest. r = Suc j + i + 1
        \<and> (\<forall>x\<in>set (take i rest). x \<noteq> [] \<and> strip (hd x) \<noteq> name)
        \<and> rest ! i \<noteq> [] \<and> strip (hd (rest ! i)) = name)" (is "?L \<longleftrightarrow> ?R")
      proof
        assume ?L
        then obtain i where i: "i < length (row # rest)" "r = j + i + 1"
          "\<forall>x\<in>set (take i (row # rest)). x \<noteq> [] \<and> strip (hd x) \<noteq> name"
          "(row # rest) ! i \<noteq> []" "strip (hd ((row # rest) ! i)) = name"
          by blast
        from i(5) False obtain i' where i': "i = Suc i'" by (cases i) auto
        from i have "i' < length rest \<and> r = Suc j + i' + 1
          \<and> (\<forall>x\<in>set (take i' rest). x \<noteq> [] \<and> strip (hd x) \<noteq> name)
          \<and> rest ! i' \<noteq> [] \<and> strip (hd (rest ! i')) = name"
          unfolding i' by simp
        then show ?R by blast
      next
        assume ?R
        then obtain i where i: "i < length rest" "r = Suc j + i + 1"
          "\<forall>x\<in>set (take i rest). x \<noteq> [] \<and> strip (hd x) \<noteq> name"
          "rest ! i \<noteq> []" "strip (hd (rest ! i)) = name"
          by blast
        with ne False have "Suc i < length (row # rest) \<and> r = j + Suc i + 1
          \<and> (\<forall>x\<in>set (take (Suc i) (row # rest)). x \<noteq> [] \<and> strip (hd x) \<noteq> name)
          \<and> (row # rest) ! Suc i \<noteq> [] \<and> strip (hd ((row # rest) ! Suc i)) = name"
          by simp
        then show ?L by blast
      qed
      with ne False Cons.IH [of "Suc j"] show ?thesis
        by (simp add: py_index_0)
    qed
  qed
qed

lemma find_row_from_None:
  "find_row_from j data name = Inr None \<longleftrightarrow>
     (\<forall>row\<in>set data. row \<noteq> [] \<and> strip (hd row) \<noteq> name)"
  by (induction data arbitrary: j) (auto simp: py_index_0)

text \<open>
  Claim C3, as stated, fails: the scan starts at row 0, so the title row (and likewise
  the header row) is matched when its first cell is the campaign name.
\<close>

theorem find_row_scans_title_and_header:
  "find_row [[''Camp A'', ''Week 1''], [''Camp'', ''Calls''], [''Camp A'', ''7'']] ''Camp A''
     = Inr (Some 1)"
  by code_simp

text \<open>
  Claim C3, amended. The row matcher scans every row of the grid from row 0, title and
  header rows included. It returns \<open>r\<close> exactly when grid row \<open>r - 1\<close> is the first row
  whose first cell, trimmed, equals the name (an exact, case-sensitive comparison) and
  no row before it is empty; it returns not-found exactly when no row is empty and
  none matches.
\<close>

theorem find_row_first_match:
  "(find_row data name = Inr (Some r) \<longleftrightarrow>
      (1 \<le> r \<and> r \<le> length data
       \<and> (\<forall>row\<in>set (take (r - 1) data). row \<noteq> [] \<and> strip (hd row) \<noteq> name)
       \<and> data ! (r - 1) \<noteq> [] \<and> strip (hd (data ! (r - 1))) = name))
   \<and> (find_row data name = Inr None \<longleftrightarrow>
        (\<forall>row\<in>set data. row \<noteq> [] \<and> strip (hd row) \<noteq> name))"
proof (intro conjI)
  have "(\<exists>i<length data. r = 0 + i + 1
        \<and> (\<forall>row\<in>set (take i data). row \<noteq> [] \<and> strip (hd row) \<noteq> name)
        \<and> data ! i \<noteq> [] \<and> strip (hd (data ! i)) = name)
     \<longleftrightarrow> (1 \<le> r \<and> r \<le> length data
       \<and> (\<forall>row\<in>set (take (r - 1) data). row \<noteq> [] \<and> strip (hd row) \<noteq> name)
       \<and> data ! (r - 1) \<noteq> [] \<and> strip (hd (data ! (r - 1))) = name)" (is "?L \<longleftrightarrow> ?R")
  proof
    assume ?L
    then obtain i where "i < length data" "r = 0 + i + 1"
        "\<forall>row\<in>set (take i data). row \<noteq> [] \<and> strip (hd row) \<noteq> name"
        "data ! i \<noteq> []" "strip (hd (data ! i)) = name"
      by blast
    then show ?R by simp
  next
    assume r: ?R
    then have "r - 1 < length data" "r = 0 + (r - 1) + 1" by auto
    with r show ?L by blast
  qed
  then show "find_row data name = Inr (Some r) \<longleftrightarrow> ?R"
    by (simp only: find_row_def find_row_from_Some)
  show "find_row data name = Inr None \<longleftrightarrow>
        (\<forall>row\<in>set data. row \<noteq> [] \<and> strip (hd row) \<noteq> name)"
    by (simp only: find_row_def find_row_from_None)
qed

theorem find_row_first_match_witness:
  "find_row [[''Week 1'', ''x''], [''Camp'', ''Calls''], ['' Camp A '', ''7'']] ''Camp A''
     = Inr (Some 3)
   \<and> find_row [[''Week 1'', ''x''], [''Camp'', ''Calls''], ['' Camp A '', ''7'']] ''camp a''
       = Inr None"
proof -
  let ?d = "[[''Week 1'', ''x''], [''Camp'', ''Calls''], ['' Camp A '', ''7'']]"
  have s: "strip ''Week 1'' = ''Week 1''" "strip ''Camp'' = ''Camp''"
      "strip '' Camp A '' = ''Camp A''"
    by code_simp+
  have a: "(1::nat) \<le> 3 \<and> 3 \<le> length ?d
       \<and> (\<forall>row\<in>set (take (3 - 1) ?d). row \<noteq> [] \<and> strip (hd row) \<noteq> ''Camp A'')
       \<and> ?d ! (3 - 1) \<noteq> [] \<and> strip (hd (?d ! (3 - 1))) = ''Camp A''"
    by (simp add: s)
  have b: "\<forall>row\<in>set ?d. row \<noteq> [] \<and> strip (hd row) \<noteq> ''camp a''"
    by (simp add: s)
  from a b find_row_first_match [of ?d "''Camp A''" 3] find_row_first_match [of ?d "''camp a''" 3]
  show ?thesis by blast
qed

section \<open>Facts about the alias resolver\<close>

lemma first_index_Some:
  "first_index P xs = Some i \<longleftrightarrow> i < length xs \<and> P (xs ! i) \<and> (\<forall>j<i. \<not> P (xs ! j))"
proof (induction xs arbitrary: i)
  case Nil
  then show ?case by simp
next
  case (Cons x xs)
  show ?case
  proof (cases "P x")
    case True
    then show ?thesis by (cases i) auto
  next
    case False
    show ?thesis
    proof (cases i)
      case 0
      with False show ?thesis by simp
    next
      case (Suc i')
      have "(\<forall>j<Suc i'. \<not> P ((x # xs) ! j)) \<longleftrightarrow> (\<forall>j<i'. \<not> P (xs ! j))"
        using False by (auto simp: less_Suc_eq_0_disj)
      with Suc False Cons.IH [of i'] show ?thesis by auto
    qed
  qed
qed

lemma first_index_None:
  "first_index P xs = None \<longleftrightarrow> (\<forall>x\<in>set xs. \<not> P x)"
  by (induction xs) auto

lemma first_index_distinct:
  "distinct xs \<Longrightarrow> p < length xs \<Longrightarrow> first_index (\<lambda>c. c = xs ! p) xs = Some p"
  by (auto simp: first_index_Some nth_eq_iff_index_eq)

lemma column_values_nth:
  "distinct (df_columns df) \<Longrightarrow> p < length (df_columns df) \<Longrightarrow>
     column_values df (df_columns df ! p) = Inr (map (\<lambda>r. cell_at r p) (df_rows df))"
  by (simp add: column_values_def first_index_distinct)

lemma first_index_column:
  "i < length rows \<Longrightarrow> cell_at (rows ! i) c = Some name \<Longrightarrow>
   \<forall>j<i. cell_at (rows ! j) c \<noteq> Some name \<Longrightarrow>
     first_index (\<lambda>v. v = Some name) (map (\<lambda>r. cell_at r c) rows) = Some i"
  by (simp add: first_index_Some)

lemma first_index_column_None:
  "\<forall>r\<in>set rows. cell_at r c \<noteq> Some name \<Longrightarrow>
     first_index (\<lambda>v. v = Some name) (map (\<lambda>r. cell_at r c) rows) = None"
  by (simp add: first_index_None)

lemma scan_columns_first:
  assumes d: "distinct (df_columns df)"
    and c: "c < length (df_columns df)"
    and i: "i < length (df_rows df)" "cell_at (df_rows df ! i) c = Some name"
           "\<forall>j<i. cell_at (df_rows df ! j) c \<noteq> Some name"
  shows "n \<le> c \<Longrightarrow>
         \<forall>c'. n \<le> c' \<and> c' < c \<longrightarrow> (\<forall>r\<in>set (df_rows df). cell_at r c' \<noteq> Some name) \<Longrightarrow>
         scan_columns df name (drop n (df_columns df))
           = Inr (filter (\<lambda>x. x \<noteq> name) (unique (dropna (iloc df i))))"
proof (induction "c - n" arbitrary: n)
  case 0
  then have n: "n = c" by simp
  from c have "drop c (df_columns df) = df_columns df ! c # drop (Suc c) (df_columns df)"
    by (simp add: Cons_nth_drop_Suc)
  with n d c i show ?case
    by (simp add: column_values_nth first_index_column)
next
  case (Suc k)
  then have n: "n < c" by simp
  with c have nl: "n < length (df_columns df)" by simp
  then have dr: "drop n (df_columns df) = df_columns df ! n # drop (Suc n) (df_columns df)"
    by (simp add: Cons_nth_drop_Suc)
  from Suc.prems n have "\<forall>r\<in>set (df_rows df). cell_at r n \<noteq> Some name" by simp
  then have fi: "first_index (\<lambda>v. v = Some name) (map (\<lambda>r. cell_at r n) (df_rows df)) = None"
    by (rule first_index_column_None)
  from Suc.hyps(2) have k: "k = c - Suc n" by simp
  from n have le: "Suc n \<le> c" by simp
  from Suc.prems have
    "\<forall>c'. Suc n \<le> c' \<and> c' < c \<longrightarrow> (\<forall>r\<in>set (df_rows df). cell_at r c' \<noteq> Some name)"
    by simp
  from Suc.hyps(1) [OF k le this] d nl fi show ?case
    by (simp add: dr column_values_nth)
qed

lemma scan_columns_none:
  assumes d: "distinct (df_columns df)"
  shows "n \<le> length (df_columns df) \<Longrightarrow>
         \<forall>c'. n \<le> c' \<and> c' < length (df_columns df)
            \<longrightarrow> (\<forall>r\<in>set (df_rows df). cell_at r c' \<noteq> Some name) \<Longrightarrow>
         scan_columns df name (drop n (df_columns df)) = Inr []"
proof (induction "length (df_columns df) - n" arbitrary: n)
  case 0
  then show ?case by simp
next
  case (Suc k)
  then have nl: "n < length (df_columns df)" by simp
  then have dr: "drop n (df_columns df) = df_columns df ! n # drop (Suc n) (df_columns df)"
    by (simp add: Cons_nth_drop_Suc)
  from Suc.prems nl have "\<forall>r\<in>set (df_rows df). cell_at r n \<noteq> Some name" by simp
  then have fi: "first_index (\<lambda>v. v = Some name) (map (\<lambda>r. cell_at r n) (df_rows df)) = None"
    by (rule first_index_column_None)
  from Suc.hyps(2) have k: "k = length (df_columns df) - Suc n" by simp
  from nl have le: "Suc n \<le> length (df_columns df)" by simp
  from Suc.prems have
    "\<forall>c'. Suc n \<le> c' \<and> c' < length (df_columns df)
        \<longrightarrow> (\<forall>r\<in>set (df_rows df). cell_at r c' \<noteq> Some name)"
    by simp
  from Suc.hyps(1) [OF k le this] d nl fi show ?case
    by (simp add: dr column_values_nth)
qed

lemma column_values_Camp:
  "distinct (df_columns df) \<Longrightarrow> df_columns df \<noteq> [] \<Longrightarrow> hd (df_columns df) = ''Camp'' \<Longrightarrow>
     column_values df ''Camp'' = Inr (map (\<lambda>r. cell_at r 0) (df_rows df))"
  using column_values_nth [of df 0] by (simp add: hd_conv_nth)





text \<open>
  Claim C5, as stated, fails. In the table below the name is absent from column 0 and
  stands in two other cells. Scanning the rows in order finds it first in row 0, but
  the resolver answers with row 1: it takes the first column that holds the name,
  and that is column 1, where the name stands in row 1.
\<close>

theorem alias_scan_is_column_major:
  "first_index (\<lambda>r. Some ''Camp N'' \<in> set (drop 1 r))
     (df_rows \<lparr>df_columns = [''Camp'', ''Alt 1'', ''Alt 2''],
               df_rows = [[Some ''Camp A'', Some ''Camp X'', Some ''Camp N''],
                          [Some ''Camp B'', Some ''Camp N'', Some ''Camp Y'']]\<rparr>) = Some 0
   \<and> find_alternate_campaign_name_with_new_structure
       \<lparr>df_columns = [''Camp'', ''Alt 1'', ''Alt 2''],
        df_rows = [[Some ''Camp A'', Some ''Camp X'', Some ''Camp N''],
                   [Some ''Camp B'', Some ''Camp N'', Some ''Camp Y'']]\<rparr> ''Camp N''
     = Inr [''Camp B'', ''Camp Y'']"
  by code_simp

text \<open>
  Claim C5, amended. In an alias table (distinct column labels, the first of them
  \<open>Camp\<close>) whose column 0 does not hold the name, the resolver scans the other columns
  left to right and, in the first column that holds the name, takes the first row
  from the top that holds it there. The answer is made of that row alone, the name
  removed and repetitions dropped; no other match is considered.
\<close>

theorem alias_first_column_then_first_row:
  assumes "distinct (df_columns df)" and "df_columns df \<noteq> []"
    and "hd (df_columns df) = ''Camp''"
    and "\<forall>r\<in>set (df_rows df). cell_at r 0 \<noteq> Some name"
    and "1 \<le> c" and "c < length (df_columns df)"
    and "\<forall>c'. 1 \<le> c' \<and> c' < c \<longrightarrow> (\<forall>r\<in>set (df_rows df). cell_at r c' \<noteq> Some name)"
    and "i < length (df_rows df)" and "cell_at (df_rows df ! i) c = Some name"
    and "\<forall>j<i. cell_at (df_rows df ! j) c \<noteq> Some name"
  shows "find_alternate_campaign_name_with_new_structure df name
           = Inr (filter (\<lambda>x. x \<noteq> name) (unique (dropna (iloc df i))))"
proof -
  from assms(4)
  have "first_index (\<lambda>v. v = Some name) (map (\<lambda>r. cell_at r 0) (df_rows df)) = None"
    by (rule first_index_column_None)
  with column_values_Camp [OF assms(1-3)]
  have "find_alternate_campaign_name_with_new_structure df name
          = scan_columns df name (drop 1 (df_columns df))"
    by (simp add: find_alternate_campaign_name_with_new_structure_def)
  also have "\<dots> = Inr (filter (\<lambda>x. x \<noteq> name) (unique (dropna (iloc df i))))"
    using scan_columns_first [OF assms(1) assms(6) assms(8-10) assms(5) assms(7)] .
  finally show ?thesis .
qed

theorem alias_first_column_then_first_row_witness:
  "find_alternate_campaign_name_with_new_structure
       \<lparr>df_columns = [''Camp'', ''Alt 1'', ''Alt 2''],
        df_rows = [[Some ''Camp A'', Some ''Camp X'', Some ''Camp N''],
                   [Some ''Camp B'', Some ''Camp N'', Some ''Camp Y'']]\<rparr> ''Camp N''
     = Inr (filter (\<lambda>x. x \<noteq> ''Camp N'')
         (unique (dropna (iloc
            \<lparr>df_columns = [''Camp'', ''Alt 1'', ''Alt 2''],
             df_rows = [[Some ''Camp A'', Some ''Camp X'', Some ''Camp N''],
                        [Some ''Camp B'', Some ''Camp N'', Some ''Camp Y'']]\<rparr> 1))))"
proof -
  let ?df = "\<lparr>df_columns = [''Camp'', ''Alt 1'', ''Alt 2''],
        df_rows = [[Some ''Camp A'', Some ''Camp X'', Some ''Camp N''],
                   [Some ''Camp B'', Some ''Camp N'', Some ''Camp Y'']]\<rparr>"
  have 1: "distinct (df_columns ?df)" "df_columns ?df \<noteq> []" "hd (df_columns ?df) = ''Camp''"
    by simp_all
  have 2: "\<forall>r\<in>set (df_rows ?df). cell_at r 0 \<noteq> Some ''Camp N''"
    by (simp add: cell_at_def)
  have 3: "(1::nat) \<le> 1" "1 < length (df_columns ?df)" by simp_all
  have 4: "\<forall>c'. 1 \<le> c' \<and> c' < (1::nat)
             \<longrightarrow> (\<forall>r\<in>set (df_rows ?df). cell_at r c' \<noteq> Some ''Camp N'')"
    by simp
  have 5: "1 < length (df_rows ?df)" "cell_at (df_rows ?df ! 1) 1 = Some ''Camp N''"
    by (simp_all add: cell_at_def)
  have 6: "\<forall>j<1. cell_at (df_rows ?df ! j) 1 \<noteq> Some ''Camp N''"
    by (simp add: cell_at_def)
  show ?thesis
    by (rule alias_first_column_then_first_row [OF 1 2 3 4 5 6])
qed




section \<open>Facts about the update orchestrator\<close>

lemma get_column_index_nonneg:
  "0 \<le> i \<Longrightarrow>
     get_column_index label i h
       = Inr (if i < int (length (occurrences label h))
              then Some (occurrences label h ! nat i + 1) else None)"
  by (auto simp: get_column_index_def py_index_def Let_def)

lemma get_column_index_None_nonneg:
  "get_column_index label i h = Inr None \<Longrightarrow> 0 \<le> i"
  by (auto simp: get_column_index_def py_index_def Let_def split: if_splits)

lemma target_columns_nonneg:
  "0 \<le> i \<Longrightarrow>
     target_columns cols i h
       = Inr (map (\<lambda>l. (l, if i < int (length (occurrences l h))
                            then Some (occurrences l h ! nat i + 1) else None)) cols)"
  by (induction cols) (simp_all add: get_column_index_nonneg)

lemma those_None: "None \<in> set xs \<Longrightarrow> those xs = None"
  by (induction xs) (auto split: option.splits)

lemma try_block_unresolved:
  assumes h: "py_index data 1 = Inr header_row"
    and c: "col \<in> set (update_columns t)"
    and n: "get_column_index col day_index header_row = Inr None"
  shows "try_block t rows data settings_df day_index st
           = (st\<lparr>messages := messages st @ [Error_invalid_day_index]\<rparr>, None)"
proof -
  from n have i: "0 \<le> day_index" by (rule get_column_index_None_nonneg)
  let ?f = "\<lambda>l. if day_index < int (length (occurrences l header_row))
                 then Some (occurrences l header_row ! nat day_index + 1) else None"
  from i have tc: "target_columns (update_columns t) day_index header_row
                     = Inr (map (\<lambda>l. (l, ?f l)) (update_columns t))"
    by (rule target_columns_nonneg)
  from n i have "?f col = None" by (simp add: get_column_index_nonneg)
  with c have "None \<in> set (map snd (map (\<lambda>l. (l, ?f l)) (update_columns t)))"
    by (force simp: image_iff)
  then have "those (map snd (map (\<lambda>l. (l, ?f l)) (update_columns t))) = None"
    by (rule those_None)
  with h tc show ?thesis by (simp add: try_block_def)
qed

text \<open>
  Claim C9. If a metric label of the selected update type resolves to not-found in the
  header row (grid row 1) for the chosen day index, the run issues no cell write at
  all; when the aggregation has succeeded, the run consists of the preview and the
  error message about the day index and nothing else.
\<close>

theorem unresolved_column_no_writes:
  assumes "py_index data 1 = Inr header_row"
    and "col \<in> set (update_columns t)"
    and "get_column_index col day_index header_row = Inr None"
  shows "writes (main t uploaded_file data settings_df day_index) = []
         \<and> (\<forall>rows. aggregate t uploaded_file = Inr rows \<longrightarrow>
              main t uploaded_file data settings_df day_index
                = \<lparr>writes = [], messages = [Preview, Error_invalid_day_index],
                   uncaught = None\<rparr>)"
  by (cases "aggregate t uploaded_file")
     (simp_all add: main_def try_block_unresolved [OF assms])

theorem unresolved_column_no_writes_witness:
  "writes (main CTC
       (CTC_report [\<lparr>Campaign = Some ''Camp A'', Calls = Some 10, Connects = Some 5,
                      Calls_to_Connect = Some 50, Abandoned = Some 1\<rparr>])
       [[''Week 1''],
        [''Camp'', ''Calls'', ''CTC'', ''Abandoned'', ''Connects''],
        [''Camp A'', ''0'', ''0'', ''0'', ''0'']]
       \<lparr>df_columns = [''Camp'', ''Alt 1''], df_rows = []\<rparr> 1) = []
   \<and> writes (main CTC
       (CTC_report [\<lparr>Campaign = Some ''Camp A'', Calls = Some 10, Connects = Some 5,
                      Calls_to_Connect = Some 50, Abandoned = Some 1\<rparr>])
       [[''Week 1''],
        [''Camp'', ''Calls'', ''CTC'', ''Abandoned'', ''Connects''],
        [''Camp A'', ''0'', ''0'', ''0'', ''0'']]
       \<lparr>df_columns = [''Camp'', ''Alt 1''], df_rows = []\<rparr> 0)
     = [(3, 2, Num 10), (3, 5, Num 5), (3, 3, Num 50), (3, 4, Num 1)]"
proof -
  let ?data = "[[''Week 1''],
        [''Camp'', ''Calls'', ''CTC'', ''Abandoned'', ''Connects''],
        [''Camp A'', ''0'', ''0'', ''0'', ''0'']]"
  have h: "py_index ?data 1 = Inr [''Camp'', ''Calls'', ''CTC'', ''Abandoned'', ''Connects'']"
    by (simp add: py_index_def)
  have c: "''Calls'' \<in> set (update_columns CTC)"
    by (simp add: update_columns_def)
  have n: "get_column_index ''Calls'' 1 [''Camp'', ''Calls'', ''CTC'', ''Abandoned'', ''Connects'']
             = Inr None"
    by code_simp
  have w: "writes (main CTC
       (CTC_report [\<lparr>Campaign = Some ''Camp A'', Calls = Some 10, Connects = Some 5,
                      Calls_to_Connect = Some 50, Abandoned = Some 1\<rparr>])
       ?data \<lparr>df_columns = [''Camp'', ''Alt 1''], df_rows = []\<rparr> 0)
     = [(3, 2, Num 10), (3, 5, Num 5), (3, 3, Num 50), (3, 4, Num 1)]"
    by code_simp
  from unresolved_column_no_writes [OF h c n] w show ?thesis by simp
qed

end
